theory Spec2Isabelle
  imports Main
begin

section \<open>The segmented time editor of \<open>TimeInput.js\<close>\<close>

text \<open>
  The development embeds the editing logic of
  \<^verbatim>\<open>packages/react-widgets/src/TimeInput.js\<close>: the value-parts codec
  (\<^verbatim>\<open>getValueParts\<close> and the composition path of \<^verbatim>\<open>notifyChange\<close>), the
  segment validators (\<^verbatim>\<open>TESTS\<close>, \<^verbatim>\<open>isValid\<close>), the edit session
  (\<^verbatim>\<open>useTimePartState\<close>) and the event handlers.  A handler is a function from the
  render-time snapshot (props and segment record) to the list of effects it performs, in
  the order the source performs them.
\<close>

subsection \<open>Time values\<close>

text \<open>
  A JavaScript \<^verbatim>\<open>Date\<close> is modelled by its object identity and its local time value in
  milliseconds.  Local time is taken at a fixed offset from UTC, so that the ECMAScript
  abstract operations \<^verbatim>\<open>Day\<close>, \<^verbatim>\<open>HourFromTime\<close>, \<^verbatim>\<open>MakeTime\<close>, \<^verbatim>\<open>MakeDate\<close>
  act on the local time value directly.  The prop \<^verbatim>\<open>value\<close> may also be
  \<^verbatim>\<open>undefined\<close> or \<^verbatim>\<open>null\<close>.
\<close>

datatype timevalue = Undefined | Null | DateObj (ident: nat) (time: int)

fun truthy :: "timevalue \<Rightarrow> bool" where
  "truthy (DateObj i t) = True"
| "truthy Undefined = False"
| "truthy Null = False"

text \<open>\<^verbatim>\<open>a !== b\<close>: objects are compared by identity.\<close>

fun strict_neq :: "timevalue \<Rightarrow> timevalue \<Rightarrow> bool" where
  "strict_neq Undefined Undefined = False"
| "strict_neq Null Null = False"
| "strict_neq (DateObj i s) (DateObj j t) = (i \<noteq> j)"
| "strict_neq a b = True"

definition msPerSecond :: int where "msPerSecond = 1000"
definition msPerMinute :: int where "msPerMinute = 60000"
definition msPerHour :: int where "msPerHour = 3600000"
definition msPerDay :: int where "msPerDay = 86400000"

definition Day :: "int \<Rightarrow> int" where
  "Day t = t div msPerDay"

definition HourFromTime :: "int \<Rightarrow> int" where
  "HourFromTime t = (t div msPerHour) mod 24"

definition MinFromTime :: "int \<Rightarrow> int" where
  "MinFromTime t = (t div msPerMinute) mod 60"

definition SecFromTime :: "int \<Rightarrow> int" where
  "SecFromTime t = (t div msPerSecond) mod 60"

definition msFromTime :: "int \<Rightarrow> int" where
  "msFromTime t = t mod msPerSecond"

definition MakeTime :: "int \<Rightarrow> int \<Rightarrow> int \<Rightarrow> int \<Rightarrow> int" where
  "MakeTime h m s ms = h * msPerHour + m * msPerMinute + s * msPerSecond + ms"

definition MakeDate :: "int \<Rightarrow> int \<Rightarrow> int" where
  "MakeDate day tm = day * msPerDay + tm"

text \<open>\<^verbatim>\<open>Date.prototype.setHours(h)\<close> and its siblings, each called with one argument.\<close>

definition setHours :: "int \<Rightarrow> int \<Rightarrow> int" where
  "setHours t h = MakeDate (Day t) (MakeTime h (MinFromTime t) (SecFromTime t) (msFromTime t))"

definition setMinutes :: "int \<Rightarrow> int \<Rightarrow> int" where
  "setMinutes t m = MakeDate (Day t) (MakeTime (HourFromTime t) m (SecFromTime t) (msFromTime t))"

definition setSeconds :: "int \<Rightarrow> int \<Rightarrow> int" where
  "setSeconds t s = MakeDate (Day t) (MakeTime (HourFromTime t) (MinFromTime t) s (msFromTime t))"

definition setMilliseconds :: "int \<Rightarrow> int \<Rightarrow> int" where
  "setMilliseconds t ms = MakeDate (Day t) (MakeTime (HourFromTime t) (MinFromTime t) (SecFromTime t) ms)"

subsection \<open>Segment records and their classification\<close>

datatype meridiem = AM | PM

text \<open>
  A numeric field is \<open>None\<close> when it is \<^verbatim>\<open>undefined\<close> or \<^verbatim>\<open>null\<close>; the source
  tests such fields with \<^verbatim>\<open>== null\<close> and \<^verbatim>\<open>||\<close> only, which do not tell the two apart.
\<close>

record timeparts =
  hours :: "int option"
  minutes :: "int option"
  seconds :: "int option"
  milliseconds :: "int option"
  meridiem :: meridiem

datatype precision = PrecMinutes | PrecSeconds | PrecMilliseconds

datatype segment = Hours | Minutes | Seconds | Milliseconds

datatype part = Seg segment | Meridiem

definition isEmptyValue :: "timeparts \<Rightarrow> precision \<Rightarrow> bool" where
  "isEmptyValue p prec \<longleftrightarrow>
     hours p = None \<and>
     minutes p = None \<and>
     ((prec \<noteq> PrecSeconds \<and> prec \<noteq> PrecMilliseconds) \<or> seconds p = None) \<and>
     (prec \<noteq> PrecMilliseconds \<or> milliseconds p = None)"

definition isPartialValue :: "timeparts \<Rightarrow> precision \<Rightarrow> bool" where
  "isPartialValue p prec \<longleftrightarrow>
     hours p = None \<or>
     minutes p = None \<or>
     ((prec = PrecSeconds \<or> prec = PrecMilliseconds) \<and> seconds p = None) \<or>
     (prec = PrecMilliseconds \<and> milliseconds p = None)"

text \<open>
  The segments the component renders for a precision (the conditional blocks of the JSX):
  these are the fields a precision requires.
\<close>

definition renderedSegments :: "precision \<Rightarrow> segment list" where
  "renderedSegments prec =
     [Hours, Minutes] @
     (if prec = PrecSeconds \<or> prec = PrecMilliseconds then [Seconds] else []) @
     (if prec = PrecMilliseconds then [Milliseconds] else [])"

text \<open>\<^verbatim>\<open>timeParts[part]\<close> for a numeric part.\<close>

fun getPart :: "timeparts \<Rightarrow> segment \<Rightarrow> int option" where
  "getPart p Hours = hours p"
| "getPart p Minutes = minutes p"
| "getPart p Seconds = seconds p"
| "getPart p Milliseconds = milliseconds p"

text \<open>
  The classification as the specification words it, over the rendered segments: a record
  is partial when some but not all required fields are present.
\<close>

definition spec_isPartial :: "timeparts \<Rightarrow> precision \<Rightarrow> bool" where
  "spec_isPartial p prec \<longleftrightarrow>
     list_ex (\<lambda>f. getPart p f \<noteq> None) (renderedSegments prec) \<and>
     \<not> list_all (\<lambda>f. getPart p f \<noteq> None) (renderedSegments prec)"

subsection \<open>Decomposition\<close>

definition getValueParts :: "timevalue \<Rightarrow> bool \<Rightarrow> timeparts" where
  "getValueParts v use12HourClock =
     (case v of
        DateObj i t \<Rightarrow>
          (let h = HourFromTime t in
           \<lparr> hours = Some (if use12HourClock
                            then (if h mod 12 = 0 then 12 else h mod 12)
                            else h),
             minutes = Some (MinFromTime t),
             seconds = Some (SecFromTime t),
             milliseconds = Some (msFromTime t),
             meridiem = (if use12HourClock then (if h < 12 then AM else PM) else AM) \<rparr>)
      | _ \<Rightarrow>
          \<lparr> hours = None, minutes = None, seconds = None, milliseconds = None,
            meridiem = AM \<rparr>)"

subsection \<open>Segment validators\<close>

text \<open>
  The patterns of \<^verbatim>\<open>TESTS\<close> use character classes, concatenation, alternation and
  optional parts only.  \<open>run r s\<close> lists what is left of \<open>s\<close> after each way of
  matching \<open>r\<close> at its start, in the order a backtracking matcher tries them.
\<close>

datatype regex =
    Class "char list"
  | Seq regex regex
  | Alt regex regex
  | Opt regex

fun run :: "regex \<Rightarrow> string \<Rightarrow> string list" where
  "run (Class cs) [] = []"
| "run (Class cs) (c # s) = (if c \<in> set cs then [s] else [])"
| "run (Seq r1 r2) s = concat (map (run r2) (run r1 s))"
| "run (Alt r1 r2) s = run r1 s @ run r2 s"
| "run (Opt r) s = run r s @ [s]"

text \<open>
  Every pattern of \<^verbatim>\<open>TESTS\<close> is anchored by \<^verbatim>\<open>^\<close> and \<^verbatim>\<open>$\<close> (without the
  multiline flag), so \<^verbatim>\<open>test\<close> succeeds when some match consumes the whole string.
\<close>

definition test :: "regex \<Rightarrow> string \<Rightarrow> bool" where
  "test r s \<longleftrightarrow> [] \<in> set (run r s)"

abbreviation digit :: regex where
  "digit \<equiv> Class ''0123456789''"

datatype testkey = K_hours | K_hours12 | K_minutes | K_seconds | K_milliseconds

fun TESTS :: "testkey \<Rightarrow> regex" where
  \<comment> \<open>\<^verbatim>\<open>/^([1]?[0-9]|2[0-3])$/\<close>\<close>
  "TESTS K_hours =
     Alt (Seq (Opt (Class ''1'')) (Class ''0123456789'')) (Seq (Class ''2'') (Class ''0123''))"
  \<comment> \<open>\<^verbatim>\<open>/^^(1[0-2]|0?[1-9])$$/\<close>\<close>
| "TESTS K_hours12 =
     Alt (Seq (Class ''1'') (Class ''012'')) (Seq (Opt (Class ''0'')) (Class ''123456789''))"
  \<comment> \<open>\<^verbatim>\<open>/^([0-5]?\d)$/\<close>\<close>
| "TESTS K_minutes = Seq (Opt (Class ''012345'')) digit"
| "TESTS K_seconds = Seq (Opt (Class ''012345'')) digit"
  \<comment> \<open>\<^verbatim>\<open>/^(\d{1,3})$/\<close>: one digit, then up to two more\<close>
| "TESTS K_milliseconds = Seq digit (Seq (Opt digit) (Opt digit))"

text \<open>
  \<^verbatim>\<open>isValid\<close> is called from \<^verbatim>\<open>handleChange\<close> and \<^verbatim>\<open>increment\<close> with the four
  numeric parts only.
\<close>

fun testkey_of :: "segment \<Rightarrow> bool \<Rightarrow> testkey" where
  "testkey_of Hours use12HourClock = (if \<not> use12HourClock then K_hours else K_hours12)"
| "testkey_of Minutes use12HourClock = K_minutes"
| "testkey_of Seconds use12HourClock = K_seconds"
| "testkey_of Milliseconds use12HourClock = K_milliseconds"

definition isValid :: "string \<Rightarrow> segment \<Rightarrow> bool \<Rightarrow> bool" where
  "isValid v part use12HourClock = test (TESTS (testkey_of part use12HourClock)) v"

text \<open>The characters a pattern can consume.\<close>

fun chars :: "regex \<Rightarrow> char set" where
  "chars (Class cs) = set cs"
| "chars (Seq r1 r2) = chars r1 \<union> chars r2"
| "chars (Alt r1 r2) = chars r1 \<union> chars r2"
| "chars (Opt r) = chars r"

subsection \<open>Numbers and strings\<close>

definition digit_char :: "nat \<Rightarrow> char" where
  "digit_char d = ''0123456789'' ! d"

fun natToString :: "nat \<Rightarrow> string" where
  "natToString n =
     (if n < 10 then [digit_char n] else natToString (n div 10) @ [digit_char (n mod 10)])"

declare natToString.simps [simp del]

text \<open>\<^verbatim>\<open>String(n)\<close> for an integral number.\<close>

definition String :: "int \<Rightarrow> string" where
  "String n = (if n < 0 then CHR ''-'' # natToString (nat (- n)) else natToString (nat n))"

definition digit_value :: "char \<Rightarrow> int option" where
  "digit_value =
     map_of [(CHR ''0'', 0), (CHR ''1'', 1), (CHR ''2'', 2), (CHR ''3'', 3), (CHR ''4'', 4),
             (CHR ''5'', 5), (CHR ''6'', 6), (CHR ''7'', 7), (CHR ''8'', 8), (CHR ''9'', 9)]"

fun decimal :: "int \<Rightarrow> string \<Rightarrow> int option" where
  "decimal acc [] = Some acc"
| "decimal acc (c # s) =
     (case digit_value c of None \<Rightarrow> None | Some d \<Rightarrow> decimal (10 * acc + d) s)"

definition isWhiteSpace :: "char \<Rightarrow> bool" where
  "isWhiteSpace c \<longleftrightarrow> c \<in> set [CHR '' '', CHR 0x09, CHR 0x0A, CHR 0x0B, CHR 0x0C, CHR 0x0D]"

definition trim :: "string \<Rightarrow> string" where
  "trim s = rev (dropWhile isWhiteSpace (rev (dropWhile isWhiteSpace s)))"

text \<open>
  Unary \<^verbatim>\<open>+s\<close> on a string; \<open>None\<close> is \<^verbatim>\<open>NaN\<close>.  ASCII white space is trimmed, the empty
  string is \<open>0\<close>, and an optionally signed run of decimal digits is its value.  The
  remaining numeric literals of JavaScript (a decimal point, an exponent, a radix prefix,
  \<^verbatim>\<open>Infinity\<close>) are read as \<open>None\<close>: no pattern of \<^verbatim>\<open>TESTS\<close> accepts such a
  string, and \<^verbatim>\<open>handleChange\<close> takes the same branch whether or not such a string
  counts as a number.
\<close>

definition toNumber :: "string \<Rightarrow> int option" where
  "toNumber s =
     (case trim s of
        [] \<Rightarrow> Some 0
      | c # r \<Rightarrow>
          if c = CHR ''-'' \<and> r \<noteq> [] then map_option uminus (decimal 0 r)
          else if c = CHR ''+'' \<and> r \<noteq> [] then decimal 0 r
          else decimal 0 (c # r))"

definition isNaN :: "int option \<Rightarrow> bool" where
  "isNaN n \<longleftrightarrow> n = None"

subsection \<open>Props, effects and updates\<close>

text \<open>
  What the handlers of one render close over: the props, the segment record
  \<^verbatim>\<open>timeParts\<close> returned by \<^verbatim>\<open>useTimePartState\<close>, and the reading of
  \<^verbatim>\<open>dates.today()\<close>.
\<close>

record scope =
  "value" :: timevalue
  use12HourClock :: bool
  precision :: precision
  disabled :: bool
  readOnly :: bool
  datePart :: timevalue
  timeParts :: timeparts
  today :: int

text \<open>The second argument of \<^verbatim>\<open>onChange\<close>; its key \<^verbatim>\<open>timeParts\<close> is \<open>lastTimeParts\<close>.\<close>

record meta =
  lastValue :: timevalue
  lastTimeParts :: timeparts

text \<open>
  \<open>OnChange v m\<close> is a call of the prop \<^verbatim>\<open>onChange\<close>: \<open>v\<close> is \<open>None\<close> for
  \<^verbatim>\<open>null\<close> and \<open>Some t\<close> for a new \<^verbatim>\<open>Date\<close> with time value \<open>t\<close>; \<open>m\<close> is
  \<open>None\<close> when the call has one argument.
\<close>

datatype effect =
    OnChange "int option" "meta option"
  | SetTimeParts timeparts
  | PreventDefault
  | FocusHours
  | FocusNext int
  | Select

text \<open>An object of updates: a field is \<open>None\<close> when the key is not in the object.\<close>

record updates =
  upd_hours :: "int option option"
  upd_minutes :: "int option option"
  upd_seconds :: "int option option"
  upd_milliseconds :: "int option option"
  upd_meridiem :: "meridiem option"

definition noUpdates :: updates where
  "noUpdates = \<lparr> upd_hours = None, upd_minutes = None, upd_seconds = None,
                 upd_milliseconds = None, upd_meridiem = None \<rparr>"

text \<open>\<^verbatim>\<open>{ [part]: v }\<close> for a numeric part, and \<^verbatim>\<open>{ meridiem: m }\<close>.\<close>

fun partUpdate :: "segment \<Rightarrow> int option \<Rightarrow> updates" where
  "partUpdate Hours v = noUpdates \<lparr> upd_hours := Some v \<rparr>"
| "partUpdate Minutes v = noUpdates \<lparr> upd_minutes := Some v \<rparr>"
| "partUpdate Seconds v = noUpdates \<lparr> upd_seconds := Some v \<rparr>"
| "partUpdate Milliseconds v = noUpdates \<lparr> upd_milliseconds := Some v \<rparr>"

definition meridiemUpdate :: "meridiem \<Rightarrow> updates" where
  "meridiemUpdate m = noUpdates \<lparr> upd_meridiem := Some m \<rparr>"

text \<open>\<^verbatim>\<open>{ ...timeParts, ...updates }\<close>\<close>

definition merge :: "timeparts \<Rightarrow> updates \<Rightarrow> timeparts" where
  "merge p u =
     \<lparr> hours = (case upd_hours u of None \<Rightarrow> hours p | Some v \<Rightarrow> v),
       minutes = (case upd_minutes u of None \<Rightarrow> minutes p | Some v \<Rightarrow> v),
       seconds = (case upd_seconds u of None \<Rightarrow> seconds p | Some v \<Rightarrow> v),
       milliseconds = (case upd_milliseconds u of None \<Rightarrow> milliseconds p | Some v \<Rightarrow> v),
       meridiem = (case upd_meridiem u of None \<Rightarrow> meridiem p | Some m \<Rightarrow> m) \<rparr>"

subsection \<open>Collaborators\<close>

text \<open>
  Modelled from the spec: \<^verbatim>\<open>dates.startOf(d, 'day')\<close> of \<^verbatim>\<open>./util/dates\<close>, which is
  not among the sources; the specification names it \<^verbatim>\<open>startOfDay(date)\<close>.
\<close>

definition startOfDay :: "int \<Rightarrow> int" where
  "startOfDay t = MakeDate (Day t) 0"

text \<open>
  Modelled from the spec: \<^verbatim>\<open>createEditableCallback\<close> of \<^verbatim>\<open>./util/interaction\<close>, which
  is not among the sources.  The specification says that the handlers wrapped by it are
  suppressed entirely when the control is disabled or read-only: the wrapped handler runs
  only when the flag is false.  Its second argument, the \<^verbatim>\<open>ref\<close> of the widget, has no
  part in what the specification says and is left out.
\<close>

definition createEditableCallback :: "bool \<Rightarrow> ('a \<Rightarrow> effect list) \<Rightarrow> 'a \<Rightarrow> effect list" where
  "createEditableCallback isReadOnly handler args = (if isReadOnly then [] else handler args)"

definition useEditableCallback :: "scope \<Rightarrow> ('a \<Rightarrow> effect list) \<Rightarrow> 'a \<Rightarrow> effect list" where
  "useEditableCallback sc = createEditableCallback (disabled sc \<or> readOnly sc)"

subsection \<open>Composition and the handlers\<close>

definition getDatePart :: "scope \<Rightarrow> int" where
  "getDatePart sc = startOfDay (case datePart sc of DateObj i t \<Rightarrow> t | _ \<Rightarrow> today sc)"

text \<open>
  The composition path of \<^verbatim>\<open>notifyChange\<close>, from the destructuring of
  \<^verbatim>\<open>nextTimeParts\<close> to the last setter: \<open>h0\<close> and \<open>m\<close> are its hours and
  minutes, and the basis is the value if there is one, else \<^verbatim>\<open>getDatePart()\<close>.
\<close>

definition composeDate :: "scope \<Rightarrow> timeparts \<Rightarrow> int \<Rightarrow> int \<Rightarrow> int" where
  "composeDate sc nextTimeParts h0 m =
     (let nextDate = (case value sc of DateObj i t \<Rightarrow> t | _ \<Rightarrow> getDatePart sc);
          h = (if use12HourClock sc
               then (if h0 = 12 then 0 else h0) +
                    (if meridiem nextTimeParts = PM then 12 else 0)
               else h0);
          nextDate = setHours nextDate h;
          nextDate = setMinutes nextDate m;
          nextDate = (case seconds nextTimeParts of
                        None \<Rightarrow> nextDate
                      | Some s \<Rightarrow> setSeconds nextDate s);
          nextDate = (case milliseconds nextTimeParts of
                        None \<Rightarrow> nextDate
                      | Some ms \<Rightarrow> setMilliseconds nextDate ms)
      in nextDate)"

text \<open>
  \<^verbatim>\<open>notifyChange(updates)\<close>.  Where the last branch is reached \<^verbatim>\<open>isPartialValue\<close> is
  false, so hours and minutes are present; the two \<open>None\<close> cases there are never taken.
\<close>

definition notifyChange :: "scope \<Rightarrow> updates \<Rightarrow> effect list" where
  "notifyChange sc upd =
     (let nextTimeParts = merge (timeParts sc) upd in
      if truthy (value sc) \<and> isEmptyValue nextTimeParts (precision sc) then
        [OnChange None None]
      else if isPartialValue nextTimeParts (precision sc) then
        [SetTimeParts nextTimeParts]
      else
        (case hours nextTimeParts of
           None \<Rightarrow> []
         | Some h0 \<Rightarrow>
            (case minutes nextTimeParts of
               None \<Rightarrow> []
             | Some m \<Rightarrow>
                 [OnChange (Some (composeDate sc nextTimeParts h0 m))
                    (Some \<lparr> lastValue = value sc, lastTimeParts = timeParts sc \<rparr>)])))"

text \<open>\<^verbatim>\<open>handleClear\<close>\<close>

definition handleClear :: "scope \<Rightarrow> effect list" where
  "handleClear sc =
     useEditableCallback sc
       (\<lambda>_ :: unit.
          FocusHours #
          (if truthy (value sc) then [OnChange None None]
           else [SetTimeParts (getValueParts Null False)]))
       ()"

text \<open>
  \<^verbatim>\<open>handleChange(part, event)\<close>, with \<open>rawValue\<close> the \<^verbatim>\<open>event.target.value\<close>.  The
  template literal renders \<^verbatim>\<open>currentValue || ''\<close> (\<open>currentText\<close>): an absent segment
  and the number 0 both give the empty string.
\<close>

definition currentText :: "int option \<Rightarrow> string" where
  "currentText currentValue =
     (case currentValue of None \<Rightarrow> [] | Some n \<Rightarrow> if n = 0 then [] else String n)"

definition handleChange :: "scope \<Rightarrow> segment \<Rightarrow> string \<Rightarrow> effect list" where
  "handleChange sc part rawValue =
     (let currentValue = getPart (timeParts sc) part;
          strValue = currentText currentValue @ rawValue;
          numValue = toNumber strValue;
          accepted =
            (if isNaN numValue \<or>
                (strValue \<noteq> [] \<and> \<not> isValid strValue part (use12HourClock sc))
             then (if isValid rawValue part (use12HourClock sc) \<and> \<not> isNaN (toNumber rawValue)
                   then Some (toNumber rawValue)
                   else None)
             else Some numValue)
      in Select #
         (case accepted of
            None \<Rightarrow> [PreventDefault]
          | Some numValue \<Rightarrow>
              notifyChange sc (partUpdate part (if rawValue \<noteq> [] then numValue else None))))"

text \<open>\<^verbatim>\<open>increment(part, inc)\<close>\<close>

definition increment :: "scope \<Rightarrow> part \<Rightarrow> int \<Rightarrow> effect list" where
  "increment sc part inc =
     useEditableCallback sc
       (\<lambda>(part, inc).
          case part of
            Meridiem \<Rightarrow>
              notifyChange sc
                (meridiemUpdate (if meridiem (timeParts sc) = AM then PM else AM)) @ [Select]
          | Seg g \<Rightarrow>
              (let nextPart = (case getPart (timeParts sc) g of None \<Rightarrow> 0 | Some n \<Rightarrow> n) + inc
               in if \<not> isValid (String nextPart) g (use12HourClock sc) then []
                  else notifyChange sc (partUpdate g (Some nextPart)) @ [Select]))
       (part, inc)"

text \<open>
  The fields of a keyboard event that \<^verbatim>\<open>handleKeyDown\<close> reads: the key, the selection
  of the target and the length of its text.
\<close>

record keyevent =
  key :: string
  selectionStart :: int
  selectionEnd :: int
  valueLength :: int

text \<open>\<^verbatim>\<open>focusNext(input, delta)\<close>\<close>

definition focusNext :: "int \<Rightarrow> effect list" where
  "focusNext delta = [FocusNext delta, Select]"

text \<open>\<^verbatim>\<open>handleKeyDown(part, event)\<close>\<close>

definition handleKeyDown :: "scope \<Rightarrow> part \<Rightarrow> keyevent \<Rightarrow> effect list" where
  "handleKeyDown sc part event =
     useEditableCallback sc
       (\<lambda>(part, event).
          (let isMeridiem = (part = Meridiem) in
           (if key event = ''ArrowUp'' then PreventDefault # increment sc part 1 else []) @
           (if key event = ''ArrowDown'' then PreventDefault # increment sc part (- 1) else []) @
           (if key event = ''ArrowLeft'' \<and> (isMeridiem \<or> selectionStart event - 1 < 0)
            then PreventDefault # focusNext (- 1) else []) @
           (if key event = ''ArrowRight'' \<and>
               (isMeridiem \<or> valueLength event \<le> selectionEnd event + 1)
            then PreventDefault # focusNext 1 else []) @
           (if readOnly sc \<and> key event \<noteq> ''Tab'' then [PreventDefault] else []) @
           (if isMeridiem then
              (if key event = ''a'' \<or> key event = ''A''
               then notifyChange sc (meridiemUpdate AM) else []) @
              (if key event = ''p'' \<or> key event = ''P''
               then notifyChange sc (meridiemUpdate PM) else [])
            else [])))
       (part, event)"

subsection \<open>The edit session\<close>

text \<open>
  The state of \<^verbatim>\<open>useTimePartState\<close> and the module-level \<^verbatim>\<open>count\<close>.  One evaluation
  of the hook takes the counter and the state to the counter and the state after the
  \<^verbatim>\<open>setState\<close> issued during the evaluation, if any.
\<close>

record editstate =
  st_value :: timevalue
  st_use12HourClock :: bool
  st_timeParts :: timeparts

definition initialState :: "timevalue \<Rightarrow> bool \<Rightarrow> editstate" where
  "initialState v use12 =
     \<lparr> st_value = v, st_use12HourClock = use12, st_timeParts = getValueParts v use12 \<rparr>"

definition useTimePartState :: "nat \<times> editstate \<Rightarrow> timevalue \<Rightarrow> bool \<Rightarrow> nat \<times> editstate" where
  "useTimePartState cs v use12 =
     (let count = fst cs; state = snd cs in
      if strict_neq (st_value state) v \<or> st_use12HourClock state \<noteq> use12 then
        (let count = count + 1 in
         if count < 100 then
           (count, \<lparr> st_value = v, st_use12HourClock = use12,
                     st_timeParts = getValueParts v use12 \<rparr>)
         else (count, state))
      else (count, state))"

text \<open>\<^verbatim>\<open>setTimeParts\<close> replaces the segment record of the state; other effects leave it.\<close>

fun applyEffect :: "editstate \<Rightarrow> effect \<Rightarrow> editstate" where
  "applyEffect st (SetTimeParts p) = st \<lparr> st_timeParts := p \<rparr>"
| "applyEffect st e = st"

definition applyEffects :: "editstate \<Rightarrow> effect list \<Rightarrow> editstate" where
  "applyEffects st es = foldl applyEffect st es"

text \<open>An effect that changes the segment record or reports to the owner.\<close>

fun mutates :: "effect \<Rightarrow> bool" where
  "mutates (OnChange v m) = True"
| "mutates (SetTimeParts p) = True"
| "mutates e = False"

text \<open>
  A segment value can be stored when the text \<^verbatim>\<open>handleChange\<close> builds from it is empty
  (the value is absent or 0) or passes the segment validator; a segment record can be
  stored when each of its numeric fields can.
\<close>

definition storable :: "segment \<Rightarrow> bool \<Rightarrow> int option \<Rightarrow> bool" where
  "storable g use12 v \<longleftrightarrow> currentText v = [] \<or> isValid (currentText v) g use12"

definition storableParts :: "bool \<Rightarrow> timeparts \<Rightarrow> bool" where
  "storableParts use12 p \<longleftrightarrow>
     list_all (\<lambda>g. storable g use12 (getPart p g)) [Hours, Minutes, Seconds, Milliseconds]"

section \<open>Properties\<close>

subsection \<open>Time arithmetic\<close>





lemmas time_defs =
  MakeDate_def MakeTime_def Day_def HourFromTime_def MinFromTime_def SecFromTime_def
  msFromTime_def msPerDay_def msPerHour_def msPerMinute_def msPerSecond_def

subsection \<open>The codec\<close>





subsection \<open>Classification\<close>

text \<open>
  C6, as the claim states it, fails: the record with every field absent satisfies
  \<^verbatim>\<open>isPartialValue\<close>, although none of its required fields is present.
\<close>

theorem isPartialValue_counterexample:
  "isPartialValue \<lparr> hours = None, minutes = None, seconds = None, milliseconds = None,
                    meridiem = AM \<rparr> PrecMinutes \<and>
   \<not> spec_isPartial \<lparr> hours = None, minutes = None, seconds = None, milliseconds = None,
                    meridiem = AM \<rparr> PrecMinutes"
  by (simp add: isPartialValue_def spec_isPartial_def renderedSegments_def)

text \<open>
  C6, amended.  \<^verbatim>\<open>isEmptyValue\<close> holds if and only if every field the precision
  requires is absent; \<^verbatim>\<open>isPartialValue\<close> holds if and only if at least one field the
  precision requires is absent, which includes the record with every field absent.
\<close>

theorem classification:
  "(isEmptyValue p prec \<longleftrightarrow> (\<forall>f \<in> set (renderedSegments prec). getPart p f = None)) \<and>
   (isPartialValue p prec \<longleftrightarrow> (\<exists>f \<in> set (renderedSegments prec). getPart p f = None))"
  by (cases prec) (auto simp: isEmptyValue_def isPartialValue_def renderedSegments_def)

theorem classification_witness:
  "isEmptyValue \<lparr> hours = None, minutes = None, seconds = None, milliseconds = Some 5,
                  meridiem = AM \<rparr> PrecSeconds \<and>
   isPartialValue \<lparr> hours = None, minutes = None, seconds = None, milliseconds = Some 5,
                  meridiem = AM \<rparr> PrecSeconds \<and>
   \<not> isEmptyValue \<lparr> hours = Some 9, minutes = None, seconds = None, milliseconds = None,
                  meridiem = AM \<rparr> PrecSeconds \<and>
   isPartialValue \<lparr> hours = Some 9, minutes = None, seconds = None, milliseconds = None,
                  meridiem = AM \<rparr> PrecSeconds \<and>
   \<not> isPartialValue \<lparr> hours = Some 9, minutes = Some 30, seconds = Some 0, milliseconds = None,
                  meridiem = AM \<rparr> PrecSeconds"
  using classification [of "\<lparr> hours = None, minutes = None, seconds = None,
                  milliseconds = Some 5, meridiem = AM \<rparr>" PrecSeconds]
    classification [of "\<lparr> hours = Some 9, minutes = None, seconds = None,
                  milliseconds = None, meridiem = AM \<rparr>" PrecSeconds]
    classification [of "\<lparr> hours = Some 9, minutes = Some 30, seconds = Some 0,
                  milliseconds = None, meridiem = AM \<rparr>" PrecSeconds]
  by (simp add: renderedSegments_def)

text \<open>The specification's partial records are those that are neither empty nor complete.\<close>

lemma spec_isPartial_iff:
  "spec_isPartial p prec \<longleftrightarrow> isPartialValue p prec \<and> \<not> isEmptyValue p prec"
  by (cases prec)
     (auto simp: spec_isPartial_def isPartialValue_def isEmptyValue_def renderedSegments_def)

lemma rendered_not_empty:
  assumes "g \<in> set (renderedSegments prec)" and "getPart p g \<noteq> None"
  shows "\<not> isEmptyValue p prec"
  using assms by (cases g; cases prec) (auto simp: renderedSegments_def isEmptyValue_def)

subsection \<open>The decision of \<open>notifyChange\<close>\<close>

lemma notifyChange_complete:
  assumes "\<not> isPartialValue (merge (timeParts sc) upd) (precision sc)"
  shows "\<exists>h0 m. hours (merge (timeParts sc) upd) = Some h0 \<and>
                minutes (merge (timeParts sc) upd) = Some m \<and>
                notifyChange sc upd =
                  [OnChange (Some (composeDate sc (merge (timeParts sc) upd) h0 m))
                     (Some \<lparr> lastValue = value sc, lastTimeParts = timeParts sc \<rparr>)]"
proof -
  from assms obtain h0 m where hm: "hours (merge (timeParts sc) upd) = Some h0"
      "minutes (merge (timeParts sc) upd) = Some m"
    by (auto simp: isPartialValue_def)
  from assms have "\<not> isEmptyValue (merge (timeParts sc) upd) (precision sc)"
    by (auto simp: isPartialValue_def isEmptyValue_def)
  with assms hm show ?thesis
    by (simp add: notifyChange_def Let_def)
qed

text \<open>
  C2.  Let \<open>next\<close> be the merge of the updates into the current segment record.  If a
  value exists and \<open>next\<close> is empty, \<^verbatim>\<open>onChange\<close> is called with an absent value and
  nothing else happens.  Otherwise, if \<^verbatim>\<open>isPartialValue\<close> holds of \<open>next\<close>, \<open>next\<close>
  becomes the buffered segment record and \<^verbatim>\<open>onChange\<close> is not called.  Otherwise
  \<open>next\<close> is complete: hours and minutes are present, a timestamp is composed from
  \<open>next\<close>, and \<^verbatim>\<open>onChange\<close> is called with it and with the previous value and the
  previous segment record.  When some but not all required fields of \<open>next\<close> are present,
  no call of \<^verbatim>\<open>onChange\<close> is made.
\<close>

theorem notifyChange_decision:
  "(truthy (value sc) \<and> isEmptyValue (merge (timeParts sc) upd) (precision sc) \<longrightarrow>
      notifyChange sc upd = [OnChange None None]) \<and>
   (\<not> (truthy (value sc) \<and> isEmptyValue (merge (timeParts sc) upd) (precision sc)) \<and>
    isPartialValue (merge (timeParts sc) upd) (precision sc) \<longrightarrow>
      notifyChange sc upd = [SetTimeParts (merge (timeParts sc) upd)]) \<and>
   (\<not> isPartialValue (merge (timeParts sc) upd) (precision sc) \<longrightarrow>
      (\<exists>h0 m. hours (merge (timeParts sc) upd) = Some h0 \<and>
              minutes (merge (timeParts sc) upd) = Some m \<and>
              notifyChange sc upd =
                [OnChange (Some (composeDate sc (merge (timeParts sc) upd) h0 m))
                   (Some \<lparr> lastValue = value sc, lastTimeParts = timeParts sc \<rparr>)])) \<and>
   (isPartialValue (merge (timeParts sc) upd) (precision sc) \<and>
    \<not> isEmptyValue (merge (timeParts sc) upd) (precision sc) \<longrightarrow>
      (\<forall>e \<in> set (notifyChange sc upd). \<forall>v m. e \<noteq> OnChange v m))"
proof (intro conjI impI)
  assume "truthy (value sc) \<and> isEmptyValue (merge (timeParts sc) upd) (precision sc)"
  then show "notifyChange sc upd = [OnChange None None]"
    by (simp add: notifyChange_def Let_def)
next
  assume "\<not> (truthy (value sc) \<and> isEmptyValue (merge (timeParts sc) upd) (precision sc)) \<and>
    isPartialValue (merge (timeParts sc) upd) (precision sc)"
  then show "notifyChange sc upd = [SetTimeParts (merge (timeParts sc) upd)]"
    by (simp add: notifyChange_def Let_def)
next
  assume "\<not> isPartialValue (merge (timeParts sc) upd) (precision sc)"
  then show "\<exists>h0 m. hours (merge (timeParts sc) upd) = Some h0 \<and>
              minutes (merge (timeParts sc) upd) = Some m \<and>
              notifyChange sc upd =
                [OnChange (Some (composeDate sc (merge (timeParts sc) upd) h0 m))
                   (Some \<lparr> lastValue = value sc, lastTimeParts = timeParts sc \<rparr>)]"
    by (rule notifyChange_complete)
next
  assume "isPartialValue (merge (timeParts sc) upd) (precision sc) \<and>
    \<not> isEmptyValue (merge (timeParts sc) upd) (precision sc)"
  then show "\<forall>e \<in> set (notifyChange sc upd). \<forall>v m. e \<noteq> OnChange v m"
    by (simp add: notifyChange_def Let_def)
qed

text \<open>
  The three branches at work: clearing the last present field of a control with a value;
  typing the hours into an empty control; and completing 9:30 AM in 12-hour mode with no
  value, which composes 09:30:00.000 on the day of \<^verbatim>\<open>dates.today()\<close>.
\<close>

theorem notifyChange_decision_witness:
  "notifyChange
     \<lparr> value = DateObj 3 50700000, use12HourClock = False, precision = PrecMinutes,
       disabled = False, readOnly = False, datePart = Undefined,
       timeParts = \<lparr> hours = Some 14, minutes = None, seconds = Some 0,
                     milliseconds = Some 0, meridiem = AM \<rparr>,
       today = 0 \<rparr>
     (partUpdate Hours None) = [OnChange None None] \<and>
   notifyChange
     \<lparr> value = Undefined, use12HourClock = True, precision = PrecMinutes,
       disabled = False, readOnly = False, datePart = Undefined,
       timeParts = \<lparr> hours = None, minutes = None, seconds = None,
                     milliseconds = None, meridiem = AM \<rparr>,
       today = 271545678 \<rparr>
     (partUpdate Hours (Some 9)) =
     [SetTimeParts \<lparr> hours = Some 9, minutes = None, seconds = None,
                     milliseconds = None, meridiem = AM \<rparr>] \<and>
   notifyChange
     \<lparr> value = Undefined, use12HourClock = True, precision = PrecMinutes,
       disabled = False, readOnly = False, datePart = Undefined,
       timeParts = \<lparr> hours = Some 9, minutes = Some 3, seconds = None,
                     milliseconds = None, meridiem = AM \<rparr>,
       today = 271545678 \<rparr>
     (partUpdate Minutes (Some 30)) =
     [OnChange (Some 293400000)
        (Some \<lparr> lastValue = Undefined,
                lastTimeParts = \<lparr> hours = Some 9, minutes = Some 3, seconds = None,
                                  milliseconds = None, meridiem = AM \<rparr> \<rparr>)]"
proof -
  let ?a = "\<lparr> value = DateObj 3 50700000, use12HourClock = False, precision = PrecMinutes,
       disabled = False, readOnly = False, datePart = Undefined,
       timeParts = \<lparr> hours = Some 14, minutes = None, seconds = Some 0,
                     milliseconds = Some 0, meridiem = AM \<rparr>,
       today = 0 \<rparr>"
  let ?b = "\<lparr> value = Undefined, use12HourClock = True, precision = PrecMinutes,
       disabled = False, readOnly = False, datePart = Undefined,
       timeParts = \<lparr> hours = None, minutes = None, seconds = None,
                     milliseconds = None, meridiem = AM \<rparr>,
       today = 271545678 \<rparr>"
  let ?c = "\<lparr> value = Undefined, use12HourClock = True, precision = PrecMinutes,
       disabled = False, readOnly = False, datePart = Undefined,
       timeParts = \<lparr> hours = Some 9, minutes = Some 3, seconds = None,
                     milliseconds = None, meridiem = AM \<rparr>,
       today = 271545678 \<rparr>"
  have 1: "notifyChange ?a (partUpdate Hours None) = [OnChange None None]"
    using notifyChange_decision [of ?a "partUpdate Hours None", THEN conjunct1]
    by (simp add: isEmptyValue_def merge_def noUpdates_def)
  have 2: "notifyChange ?b (partUpdate Hours (Some 9)) =
           [SetTimeParts \<lparr> hours = Some 9, minutes = None, seconds = None,
                           milliseconds = None, meridiem = AM \<rparr>]"
    using notifyChange_decision [of ?b "partUpdate Hours (Some 9)", THEN conjunct2,
        THEN conjunct1]
    by (simp add: isEmptyValue_def isPartialValue_def merge_def noUpdates_def)
  have b: "startOfDay 271545678 = 259200000"
    by (simp add: startOfDay_def time_defs)
  have h: "setHours 259200000 9 = 291600000"
    by (simp add: setHours_def time_defs)
  have m: "setMinutes 291600000 30 = 293400000"
    by (simp add: setMinutes_def time_defs)
  have 3: "notifyChange ?c (partUpdate Minutes (Some 30)) =
           [OnChange (Some 293400000)
              (Some \<lparr> lastValue = Undefined,
                      lastTimeParts = \<lparr> hours = Some 9, minutes = Some 3, seconds = None,
                                        milliseconds = None, meridiem = AM \<rparr> \<rparr>)]"
    using notifyChange_decision [of ?c "partUpdate Minutes (Some 30)", THEN conjunct2,
        THEN conjunct2, THEN conjunct1]
    by (simp add: isPartialValue_def merge_def noUpdates_def composeDate_def getDatePart_def b h m)
  from 1 2 3 show ?thesis by simp
qed

subsection \<open>The validators\<close>

lemma run_consumes:
  "rest \<in> set (run r s) \<Longrightarrow> \<exists>pre. s = pre @ rest \<and> set pre \<subseteq> chars r"
proof (induction r arbitrary: s rest)
  case (Class cs)
  then show ?case
    by (cases s) (auto split: if_splits)
next
  case (Seq r1 r2)
  from Seq.prems obtain mid where mid: "mid \<in> set (run r1 s)" "rest \<in> set (run r2 mid)"
    by auto
  from Seq.IH(1)[OF mid(1)] obtain p1 where p1: "s = p1 @ mid" "set p1 \<subseteq> chars r1" by blast
  from Seq.IH(2)[OF mid(2)] obtain p2 where p2: "mid = p2 @ rest" "set p2 \<subseteq> chars r2" by blast
  have "s = (p1 @ p2) @ rest" using p1 p2 by simp
  moreover have "set (p1 @ p2) \<subseteq> chars (Seq r1 r2)" using p1 p2 by auto
  ultimately show ?case by blast
next
  case (Alt r1 r2)
  then show ?case by fastforce
next
  case (Opt r)
  from Opt.prems have "rest \<in> set (run r s) \<or> rest = s" by auto
  then show ?case
  proof
    assume "rest \<in> set (run r s)"
    from Opt.IH[OF this] show ?thesis by simp
  next
    assume "rest = s"
    then have "s = [] @ rest \<and> set [] \<subseteq> chars (Opt r)" by simp
    then show ?thesis by blast
  qed
qed

lemma test_chars: "test r s \<Longrightarrow> set s \<subseteq> chars r"
  unfolding test_def using run_consumes[of "[]" r s] by auto

text \<open>Every validator accepts non-empty strings of decimal digits only.\<close>

lemma isValid_digits:
  assumes "isValid s g m"
  shows "s \<noteq> [] \<and> set s \<subseteq> set ''0123456789''"
proof
  show "s \<noteq> []"
    using assms by (cases g; cases m) (auto simp: isValid_def test_def)
  have "chars (TESTS (testkey_of g m)) \<subseteq> set ''0123456789''"
    by (cases g; cases m) auto
  with test_chars[of "TESTS (testkey_of g m)" s] assms
  show "set s \<subseteq> set ''0123456789''"
    by (auto simp: isValid_def)
qed

lemma digit_value_digit:
  "c \<in> set ''0123456789'' \<Longrightarrow> \<exists>d. digit_value c = Some d"
  by (auto simp: digit_value_def)

lemma decimal_digits:
  "set s \<subseteq> set ''0123456789'' \<Longrightarrow> \<exists>n. decimal acc s = Some n"
proof (induction s arbitrary: acc)
  case Nil
  then show ?case by simp
next
  case (Cons c s)
  then have "c \<in> set ''0123456789''" by simp
  from digit_value_digit[OF this] obtain d where d: "digit_value c = Some d" ..
  from Cons have "set s \<subseteq> set ''0123456789''" by simp
  from Cons.IH[OF this, of "10 * acc + d"] d show ?case by simp
qed

lemma digit_not_space: "c \<in> set ''0123456789'' \<Longrightarrow> \<not> isWhiteSpace c"
  by (auto simp: isWhiteSpace_def)

lemma trim_digits:
  assumes "s \<noteq> []" and "set s \<subseteq> set ''0123456789''"
  shows "trim s = s"
proof -
  have "hd s \<in> set s" "last s \<in> set s" using assms(1) by simp_all
  then have h: "\<not> isWhiteSpace (hd s)" and l: "\<not> isWhiteSpace (last s)"
    using assms(2) digit_not_space by blast+
  have 1: "dropWhile isWhiteSpace s = s"
    using h by (simp add: dropWhile_eq_self_iff)
  have 2: "dropWhile isWhiteSpace (rev s) = rev s"
    using l assms(1) by (simp add: dropWhile_eq_self_iff hd_rev)
  show ?thesis by (simp add: trim_def 1 2)
qed

lemma toNumber_digits:
  assumes "s \<noteq> []" and "set s \<subseteq> set ''0123456789''"
  shows "toNumber s = decimal 0 s"
proof -
  from assms(1) obtain c r where s: "s = c # r" by (cases s) auto
  with assms(2) have "c \<in> set ''0123456789''" by simp
  then have "c \<noteq> CHR ''-''" "c \<noteq> CHR ''+''" by auto
  then show ?thesis
    unfolding toNumber_def trim_digits[OF assms] by (simp add: s)
qed

text \<open>An accepted string is a number, never \<^verbatim>\<open>NaN\<close>.\<close>

lemma isValid_number:
  assumes "isValid s g m"
  shows "\<exists>n. toNumber s = Some n"
  using isValid_digits[OF assms] toNumber_digits[of s] decimal_digits[of s 0] by auto

lemma toNumber_empty: "toNumber [] = Some 0"
  by (simp add: toNumber_def trim_def)

lemmas read_defs = toNumber_def trim_def isWhiteSpace_def digit_value_def

lemma String_small:
  "String 1 = ''1''" "String (- 1) = ''-1''" "String 24 = ''24''" "String 9 = ''9''"
  by (simp_all add: String_def natToString.simps digit_char_def)

lemma isValid_one: "isValid ''1'' g m"
  by (cases g; cases m) (simp_all add: isValid_def test_def)

lemma isValid_minus_one: "\<not> isValid ''-1'' g m"
  by (cases g; cases m) (simp_all add: isValid_def test_def)

text \<open>What the hours pattern of the 24-hour mode accepts, exactly.\<close>

lemma isValid_hours24:
  "isValid s Hours False \<longleftrightarrow>
     (\<exists>d \<in> set ''0123456789''. s = [d]) \<or>
     (\<exists>d \<in> set ''0123456789''. s = [CHR ''1'', d]) \<or>
     (\<exists>d \<in> set ''0123''. s = [CHR ''2'', d])"
proof (cases s)
  case Nil
  then show ?thesis by (simp add: isValid_def test_def)
next
  case (Cons a s1)
  show ?thesis
  proof (cases s1)
    case Nil
    with Cons show ?thesis by (auto simp add: isValid_def test_def)
  next
    case (Cons b s2)
    show ?thesis
    proof (cases s2)
      case Nil
      with \<open>s = a # s1\<close> \<open>s1 = b # s2\<close> show ?thesis
        by (auto simp add: isValid_def test_def)
    next
      case (Cons c s3)
      with \<open>s = a # s1\<close> \<open>s1 = b # s2\<close> show ?thesis
        by (auto simp add: isValid_def test_def)
    qed
  qed
qed

subsection \<open>The numbers a validator accepts\<close>

text \<open>
  \<^verbatim>\<open>String(n)\<close> passes the validator of a segment for every \<open>n\<close> in the segment's
  range, and the number of an accepted string lies in that range.
\<close>

lemma isValid_minutes:
  "isValid s Minutes m \<longleftrightarrow>
     (\<exists>b \<in> set ''0123456789''. s = [b]) \<or>
     (\<exists>a \<in> set ''012345''. \<exists>b \<in> set ''0123456789''. s = [a, b])"
proof (cases s)
  case Nil
  then show ?thesis by (simp add: isValid_def test_def)
next
  case (Cons a s1)
  show ?thesis
  proof (cases s1)
    case Nil
    with Cons show ?thesis by (auto simp add: isValid_def test_def)
  next
    case (Cons b s2)
    show ?thesis
    proof (cases s2)
      case Nil
      with \<open>s = a # s1\<close> \<open>s1 = b # s2\<close> show ?thesis
        by (auto simp add: isValid_def test_def)
    next
      case (Cons c s3)
      with \<open>s = a # s1\<close> \<open>s1 = b # s2\<close> show ?thesis
        by (auto simp add: isValid_def test_def)
    qed
  qed
qed

lemma isValid_seconds: "isValid s Seconds m = isValid s Minutes m"
  by (simp add: isValid_def)

lemma isValid_hours12:
  "isValid s Hours True \<longleftrightarrow>
     (\<exists>b \<in> set ''012''. s = [CHR ''1'', b]) \<or>
     (\<exists>b \<in> set ''123456789''. s = [CHR ''0'', b]) \<or>
     (\<exists>b \<in> set ''123456789''. s = [b])"
proof (cases s)
  case Nil
  then show ?thesis by (simp add: isValid_def test_def)
next
  case (Cons a s1)
  show ?thesis
  proof (cases s1)
    case Nil
    with Cons show ?thesis by (auto simp add: isValid_def test_def)
  next
    case (Cons b s2)
    show ?thesis
    proof (cases s2)
      case Nil
      with \<open>s = a # s1\<close> \<open>s1 = b # s2\<close> show ?thesis
        by (auto simp add: isValid_def test_def)
    next
      case (Cons c s3)
      with \<open>s = a # s1\<close> \<open>s1 = b # s2\<close> show ?thesis
        by (auto simp add: isValid_def test_def)
    qed
  qed
qed

lemma isValid_ms_length:
  assumes "isValid s Milliseconds m"
  shows "length s \<le> 3"
proof (rule ccontr)
  assume "\<not> length s \<le> 3"
  then obtain a b c d r where "s = a # b # c # d # r"
    by (cases s; cases "tl s"; cases "tl (tl s)"; cases "tl (tl (tl s))") auto
  with assms show False
    by (simp add: isValid_def test_def del: list.set split: if_splits) simp_all
qed


lemma digit_char_digit: "d < 10 \<Longrightarrow> digit_char d \<in> set ''0123456789''"
proof -
  assume "d < 10"
  then have "d \<in> {0, 1, 2, 3, 4, 5, 6, 7, 8, 9}" by auto
  then show ?thesis by (auto simp: digit_char_def)
qed

lemma natToString_1: "k < 10 \<Longrightarrow> natToString k = [digit_char k]"
  by (simp add: natToString.simps)

lemma natToString_2:
  "10 \<le> k \<Longrightarrow> k < 100 \<Longrightarrow> natToString k = [digit_char (k div 10), digit_char (k mod 10)]"
  by (subst natToString.simps) (simp add: natToString_1)

lemma natToString_3:
  "100 \<le> k \<Longrightarrow> k < 1000 \<Longrightarrow>
   natToString k = [digit_char (k div 100), digit_char (k div 10 mod 10), digit_char (k mod 10)]"
  by (subst natToString.simps) (simp add: natToString_2 div_mult2_eq[symmetric])

lemma ms_digits:
  assumes "a \<in> set ''0123456789''" "b \<in> set ''0123456789''" "c \<in> set ''0123456789''"
  shows "isValid [a] Milliseconds m" "isValid [a, b] Milliseconds m"
    "isValid [a, b, c] Milliseconds m"
  using assms by (simp_all add: isValid_def test_def del: list.set) simp_all


lemma String_nonneg: "0 \<le> n \<Longrightarrow> String n = natToString (nat n)"
  by (simp add: String_def)

lemma ms_range:
  assumes "0 \<le> n" "n < 1000"
  shows "isValid (String n) Milliseconds m"
proof -
  let ?k = "nat n"
  have k: "?k < 1000" using assms by simp
  have d1: "digit_char (?k mod 10) \<in> set ''0123456789''"
    by (rule digit_char_digit) simp
  have d2: "digit_char (?k div 10 mod 10) \<in> set ''0123456789''"
    by (rule digit_char_digit) simp
  consider "?k < 10" | "10 \<le> ?k" "?k < 100" | "100 \<le> ?k" by linarith
  then show ?thesis
  proof cases
    case 1
    have d: "digit_char ?k \<in> set ''0123456789''"
      using 1 by (rule digit_char_digit)
    show ?thesis
      unfolding String_nonneg[OF assms(1)] natToString_1[OF 1]
      by (rule ms_digits(1)[OF d d d])
  next
    case 2
    have d: "digit_char (?k div 10) \<in> set ''0123456789''"
      using 2 by (intro digit_char_digit) simp
    show ?thesis
      unfolding String_nonneg[OF assms(1)] natToString_2[OF 2]
      by (rule ms_digits(2)[OF d d1 d1])
  next
    case 3
    have d: "digit_char (?k div 100) \<in> set ''0123456789''"
      using k by (intro digit_char_digit) simp
    show ?thesis
      unfolding String_nonneg[OF assms(1)] natToString_3[OF 3 k]
      by (rule ms_digits(3)[OF d d2 d1])
  qed
qed

lemma digit_char_le3: "d \<le> 3 \<Longrightarrow> digit_char d \<in> set ''0123''"
proof -
  assume "d \<le> 3"
  then have "d \<in> {0, 1, 2, 3}" by auto
  then show ?thesis by (auto simp: digit_char_def)
qed

lemma digit_char_le2: "d \<le> 2 \<Longrightarrow> digit_char d \<in> set ''012''"
proof -
  assume "d \<le> 2"
  then have "d \<in> {0, 1, 2}" by auto
  then show ?thesis by (auto simp: digit_char_def)
qed

lemma digit_char_pos: "1 \<le> d \<Longrightarrow> d < 10 \<Longrightarrow> digit_char d \<in> set ''123456789''"
proof -
  assume "1 \<le> d" "d < 10"
  then have "d \<in> {1, 2, 3, 4, 5, 6, 7, 8, 9}" by auto
  then show ?thesis by (auto simp: digit_char_def)
qed

lemma digit_char_const: "digit_char 1 = CHR ''1''" "digit_char 2 = CHR ''2''"
  by (simp_all add: digit_char_def)

lemma hours24_range:
  assumes "0 \<le> n" "n < 24"
  shows "isValid (String n) Hours False"
proof -
  let ?k = "nat n"
  have k: "?k < 24" using assms by simp
  consider "?k < 10" | "10 \<le> ?k" "?k < 20" | "20 \<le> ?k" by linarith
  then show ?thesis
  proof cases
    case 1
    then have "digit_char ?k \<in> set ''0123456789''" by (rule digit_char_digit)
    then show ?thesis
      unfolding String_nonneg[OF assms(1)] natToString_1[OF 1] isValid_hours24 by blast
  next
    case 2
    then have r: "10 \<le> ?k" "?k < 100" by simp_all
    have t: "?k div 10 = 1" using 2 by simp
    have "digit_char (?k mod 10) \<in> set ''0123456789''"
      by (rule digit_char_digit) simp
    then show ?thesis
      unfolding String_nonneg[OF assms(1)] natToString_2[OF r] t digit_char_const isValid_hours24
      by blast
  next
    case 3
    then have r: "10 \<le> ?k" "?k < 100" using k by simp_all
    have t: "?k div 10 = 2" using 3 k by simp
    have "\<And>j::nat. 20 \<le> j \<Longrightarrow> j < 24 \<Longrightarrow> j mod 10 \<le> 3" by presburger
    from this[OF 3 k] have "?k mod 10 \<le> 3" .
    then have "digit_char (?k mod 10) \<in> set ''0123''"
      by (rule digit_char_le3)
    then show ?thesis
      unfolding String_nonneg[OF assms(1)] natToString_2[OF r] t digit_char_const isValid_hours24
      by blast
  qed
qed

lemma hours12_range:
  assumes "1 \<le> n" "n \<le> 12"
  shows "isValid (String n) Hours True"
proof -
  let ?k = "nat n"
  have k: "1 \<le> ?k" "?k \<le> 12" using assms by simp_all
  have nn: "0 \<le> n" using assms by simp
  show ?thesis
  proof (cases "?k < 10")
    case True
    with k have "digit_char ?k \<in> set ''123456789''" by (intro digit_char_pos)
    then show ?thesis
      unfolding String_nonneg[OF nn] natToString_1[OF True] isValid_hours12 by blast
  next
    case False
    then have r: "10 \<le> ?k" "?k < 100" using k by simp_all
    have t: "?k div 10 = 1" using False k by simp
    have "\<And>j::nat. 10 \<le> j \<Longrightarrow> j \<le> 12 \<Longrightarrow> j mod 10 \<le> 2" by presburger
    from this[OF r(1) k(2)] have "?k mod 10 \<le> 2" .
    then have "digit_char (?k mod 10) \<in> set ''012''"
      by (rule digit_char_le2)
    then show ?thesis
      unfolding String_nonneg[OF nn] natToString_2[OF r] t digit_char_const isValid_hours12
      by blast
  qed
qed

lemma digit_char_le5: "d \<le> 5 \<Longrightarrow> digit_char d \<in> set ''012345''"
proof -
  assume "d \<le> 5"
  then have "d \<in> {0, 1, 2, 3, 4, 5}" by auto
  then show ?thesis by (auto simp: digit_char_def)
qed

lemma minutes_digits:
  assumes "a \<in> set ''012345''" "b \<in> set ''0123456789''"
  shows "isValid [b] Minutes m" "isValid [a, b] Minutes m"
    "isValid [b] Seconds m" "isValid [a, b] Seconds m"
  using assms by (simp_all add: isValid_def test_def del: list.set) simp_all

lemma minutes_range:
  assumes "0 \<le> n" "n < 60"
  shows "isValid (String n) Minutes m \<and> isValid (String n) Seconds m"
proof -
  let ?k = "nat n"
  have k: "?k < 60" using assms by simp
  have d: "digit_char (?k mod 10) \<in> set ''0123456789''"
    by (rule digit_char_digit) simp
  have a: "digit_char (?k div 10) \<in> set ''012345''"
    using k by (intro digit_char_le5) simp
  show ?thesis
  proof (cases "?k < 10")
    case True
    have d0: "digit_char ?k \<in> set ''0123456789''"
      using True by (rule digit_char_digit)
    show ?thesis
      unfolding String_nonneg[OF assms(1)] natToString_1[OF True]
      using minutes_digits(1)[OF a d0] minutes_digits(3)[OF a d0] by simp
  next
    case False
    then have r: "10 \<le> ?k" "?k < 100" using k by simp_all
    show ?thesis
      unfolding String_nonneg[OF assms(1)] natToString_2[OF r]
      using minutes_digits(2)[OF a d] minutes_digits(4)[OF a d] by simp
  qed
qed

lemma dv9: "c \<in> set ''0123456789'' \<Longrightarrow> \<exists>d. digit_value c = Some d \<and> 0 \<le> d \<and> d \<le> 9"
  by (auto simp: digit_value_def)

lemma dv5: "c \<in> set ''012345'' \<Longrightarrow> \<exists>d. digit_value c = Some d \<and> 0 \<le> d \<and> d \<le> 5"
  by (auto simp: digit_value_def)

lemma dv3: "c \<in> set ''0123'' \<Longrightarrow> \<exists>d. digit_value c = Some d \<and> 0 \<le> d \<and> d \<le> 3"
  by (auto simp: digit_value_def)

lemma dv2: "c \<in> set ''012'' \<Longrightarrow> \<exists>d. digit_value c = Some d \<and> 0 \<le> d \<and> d \<le> 2"
  by (auto simp: digit_value_def)

lemma dv19: "c \<in> set ''123456789'' \<Longrightarrow> \<exists>d. digit_value c = Some d \<and> 1 \<le> d \<and> d \<le> 9"
  by (auto simp: digit_value_def)

lemma dv_const:
  "digit_value CHR ''0'' = Some 0" "digit_value CHR ''1'' = Some 1" "digit_value CHR ''2'' = Some 2"
  by (simp_all add: digit_value_def)

lemma decimal_bound:
  "set s \<subseteq> set ''0123456789'' \<Longrightarrow> decimal acc s = Some n \<Longrightarrow> 0 \<le> acc \<Longrightarrow>
     0 \<le> n \<and> n < (acc + 1) * 10 ^ length s"
proof (induction s arbitrary: acc)
  case Nil
  then show ?case by simp
next
  case (Cons c s)
  from Cons.prems(1) have "c \<in> set ''0123456789''" by simp
  from dv9[OF this] obtain d where d: "digit_value c = Some d" "0 \<le> d" "d \<le> 9" by blast
  from Cons.prems(2) d have dec: "decimal (10 * acc + d) s = Some n" by simp
  from Cons.prems(1) have sub: "set s \<subseteq> set ''0123456789''" by simp
  have nonneg: "0 \<le> 10 * acc + d" using Cons.prems(3) d by simp
  from Cons.IH[OF sub dec nonneg] have n: "0 \<le> n" "n < (10 * acc + d + 1) * 10 ^ length s"
    by simp_all
  have "(10 * acc + d + 1) * 10 ^ length s \<le> (10 * (acc + 1)) * 10 ^ length s"
    using d by (intro mult_right_mono) simp_all
  also have "\<dots> = (acc + 1) * 10 ^ length (c # s)"
    by simp
  finally have "n < (acc + 1) * 10 ^ length (c # s)"
    using n(2) by linarith
  with n(1) show ?case by blast
qed

text \<open>The number of an accepted string lies in the segment's range.\<close>

lemma valid_number_range:
  assumes "isValid s g m" and "toNumber s = Some n"
  shows "(g = Hours \<and> \<not> m \<longrightarrow> 0 \<le> n \<and> n < 24) \<and>
         (g = Hours \<and> m \<longrightarrow> 1 \<le> n \<and> n \<le> 12) \<and>
         (g = Minutes \<or> g = Seconds \<longrightarrow> 0 \<le> n \<and> n < 60) \<and>
         (g = Milliseconds \<longrightarrow> 0 \<le> n \<and> n < 1000)"
proof -
  from isValid_digits[OF assms(1)] have dig: "s \<noteq> []" "set s \<subseteq> set ''0123456789''"
    by simp_all
  from toNumber_digits[OF dig] assms(2) have dec: "decimal 0 s = Some n" by simp
  have h24: "0 \<le> n \<and> n < 24" if "g = Hours" "\<not> m"
  proof -
    from assms(1) that have "isValid s Hours False" by simp
    then consider d where "d \<in> set ''0123456789''" "s = [d]"
      | d where "d \<in> set ''0123456789''" "s = [CHR ''1'', d]"
      | d where "d \<in> set ''0123''" "s = [CHR ''2'', d]"
      unfolding isValid_hours24 by blast
    then show ?thesis
    proof cases
      case 1
      with dv9[OF 1(1)] dec show ?thesis by auto
    next
      case 2
      with dv9[OF 2(1)] dec show ?thesis by (auto simp: dv_const)
    next
      case 3
      with dv3[OF 3(1)] dec show ?thesis by (auto simp: dv_const)
    qed
  qed
  have h12: "1 \<le> n \<and> n \<le> 12" if "g = Hours" "m"
  proof -
    from assms(1) that have "isValid s Hours True" by simp
    then consider b where "b \<in> set ''012''" "s = [CHR ''1'', b]"
      | b where "b \<in> set ''123456789''" "s = [CHR ''0'', b]"
      | b where "b \<in> set ''123456789''" "s = [b]"
      unfolding isValid_hours12 by blast
    then show ?thesis
    proof cases
      case 1
      with dv2[OF 1(1)] dec show ?thesis by (auto simp: dv_const)
    next
      case 2
      with dv19[OF 2(1)] dec show ?thesis by (auto simp: dv_const)
    next
      case 3
      with dv19[OF 3(1)] dec show ?thesis by auto
    qed
  qed
  have mi: "0 \<le> n \<and> n < 60" if "g = Minutes \<or> g = Seconds"
  proof -
    from assms(1) that have "isValid s Minutes m" by (auto simp: isValid_seconds)
    then consider b where "b \<in> set ''0123456789''" "s = [b]"
      | a b where "a \<in> set ''012345''" "b \<in> set ''0123456789''" "s = [a, b]"
      unfolding isValid_minutes by blast
    then show ?thesis
    proof cases
      case 1
      with dv9[OF 1(1)] dec show ?thesis by auto
    next
      case 2
      with dv5[OF 2(1)] dv9[OF 2(2)] dec show ?thesis by auto
    qed
  qed
  have ms: "0 \<le> n \<and> n < 1000" if "g = Milliseconds"
  proof -
    from assms(1) that have "length s \<le> 3" by (auto dest: isValid_ms_length)
    then have "(10::int) ^ length s \<le> 10 ^ 3" by (intro power_increasing) simp_all
    with decimal_bound[OF dig(2) dec] show ?thesis by simp
  qed
  from h24 h12 mi ms show ?thesis by blast
qed

lemma range_storable:
  assumes "(g = Hours \<and> \<not> m \<longrightarrow> 0 \<le> n \<and> n < 24) \<and>
         (g = Hours \<and> m \<longrightarrow> 1 \<le> n \<and> n \<le> 12) \<and>
         (g = Minutes \<or> g = Seconds \<longrightarrow> 0 \<le> n \<and> n < 60) \<and>
         (g = Milliseconds \<longrightarrow> 0 \<le> n \<and> n < 1000)"
  shows "storable g m (Some n)"
proof (cases g)
  case Hours
  with assms hours24_range[of n] hours12_range[of n] show ?thesis
    by (cases m) (auto simp: storable_def currentText_def)
next
  case Minutes
  with assms minutes_range[of n m] show ?thesis
    by (auto simp: storable_def currentText_def)
next
  case Seconds
  with assms minutes_range[of n m] show ?thesis
    by (auto simp: storable_def currentText_def)
next
  case Milliseconds
  with assms ms_range[of n m] show ?thesis
    by (auto simp: storable_def currentText_def)
qed

lemma valid_number_storable:
  "isValid s g m \<Longrightarrow> toNumber s = Some n \<Longrightarrow> storable g m (Some n)"
  by (rule range_storable) (rule valid_number_range)

text \<open>Every field of a decomposed value can be stored.\<close>

lemma getValueParts_storable:
  "storable g m (getPart (getValueParts v m) g)"
proof (cases v)
  case (DateObj i t)
  have h: "0 \<le> HourFromTime t" "HourFromTime t < 24" by (simp_all add: HourFromTime_def)
  have h12: "1 \<le> (if HourFromTime t mod 12 = 0 then 12 else HourFromTime t mod 12)"
    "(if HourFromTime t mod 12 = 0 then 12 else HourFromTime t mod 12) \<le> 12"
    using h by presburger+
  have mi: "0 \<le> MinFromTime t" "MinFromTime t < 60" by (simp_all add: MinFromTime_def)
  have se: "0 \<le> SecFromTime t" "SecFromTime t < 60" by (simp_all add: SecFromTime_def)
  have ms: "0 \<le> msFromTime t" "msFromTime t < 1000"
    by (simp_all add: msFromTime_def msPerSecond_def)
  show ?thesis
  proof (cases g)
    case Hours
    show ?thesis
    proof (cases m)
      case True
      with Hours DateObj hours12_range[OF h12] show ?thesis
        by (simp add: storable_def currentText_def getValueParts_def Let_def)
    next
      case False
      with Hours DateObj hours24_range[OF h] show ?thesis
        by (simp add: storable_def currentText_def getValueParts_def Let_def)
    qed
  next
    case Minutes
    with DateObj minutes_range[OF mi, of m] show ?thesis
      by (simp add: storable_def currentText_def getValueParts_def Let_def)
  next
    case Seconds
    with DateObj minutes_range[OF se, of m] show ?thesis
      by (simp add: storable_def currentText_def getValueParts_def Let_def)
  next
    case Milliseconds
    with DateObj ms_range[OF ms, of m] show ?thesis
      by (simp add: storable_def currentText_def getValueParts_def Let_def)
  qed
qed (cases g; simp add: storable_def currentText_def getValueParts_def)+

subsection \<open>Leading zeros\<close>

text \<open>
  C3.  The hours validator of the 24-hour mode rejects the zero-padded string
  \<^verbatim>\<open>"05"\<close>, which the claim says it accepts: the pattern reads \<^verbatim>\<open>[1]?[0-9]\<close> where
  the patterns for the 12-hour hours, the minutes, the seconds and the milliseconds all
  accept a leading zero.  So \<^verbatim>\<open>"05"\<close> entered into an empty hours segment is
  rejected in 24-hour mode and accepted as 5 in 12-hour mode.
\<close>

theorem hours_leading_zero:
  "\<not> isValid ''05'' Hours False \<and>
   isValid ''05'' Hours True \<and> isValid ''05'' Minutes False \<and>
   isValid ''05'' Seconds False \<and> isValid ''005'' Milliseconds False \<and>
   handleChange
     \<lparr> value = Undefined, use12HourClock = False, precision = PrecMinutes,
       disabled = False, readOnly = False, datePart = Undefined,
       timeParts = \<lparr> hours = None, minutes = None, seconds = None,
                     milliseconds = None, meridiem = AM \<rparr>, today = 0 \<rparr> Hours ''05'' =
     [Select, PreventDefault] \<and>
   handleChange
     \<lparr> value = Undefined, use12HourClock = True, precision = PrecMinutes,
       disabled = False, readOnly = False, datePart = Undefined,
       timeParts = \<lparr> hours = None, minutes = None, seconds = None,
                     milliseconds = None, meridiem = AM \<rparr>, today = 0 \<rparr> Hours ''05'' =
     [Select, SetTimeParts \<lparr> hours = Some 5, minutes = None, seconds = None,
                             milliseconds = None, meridiem = AM \<rparr>]"
proof -
  have v: "\<not> isValid ''05'' Hours False" "isValid ''05'' Hours True"
    "isValid ''05'' Minutes False" "isValid ''05'' Seconds False"
    "isValid ''005'' Milliseconds False"
    by (simp_all add: isValid_def test_def)
  have n: "toNumber ''05'' = Some 5"
    by (simp add: read_defs)
  show ?thesis
    using v n
    by (simp add: handleChange_def currentText_def isNaN_def notifyChange_def isEmptyValue_def
        isPartialValue_def merge_def noUpdates_def)
qed

subsection \<open>Keystroke accumulation\<close>

text \<open>
  The two \<^verbatim>\<open>isNaN\<close> tests of \<^verbatim>\<open>handleChange\<close> never decide a branch: the combined
  string is empty, accepted (so a number) or not accepted.
\<close>

lemma handleChange_isNaN:
  "handleChange sc part rawValue =
     (let strValue = currentText (getPart (timeParts sc) part) @ rawValue in
      Select #
      (if strValue \<noteq> [] \<and> \<not> isValid strValue part (use12HourClock sc)
       then (if isValid rawValue part (use12HourClock sc)
             then notifyChange sc
                    (partUpdate part (if rawValue \<noteq> [] then toNumber rawValue else None))
             else [PreventDefault])
       else notifyChange sc
              (partUpdate part (if rawValue \<noteq> [] then toNumber strValue else None))))"
proof (cases "currentText (getPart (timeParts sc) part) @ rawValue = []")
  case True
  then show ?thesis
    by (simp add: handleChange_def Let_def isNaN_def toNumber_empty)
next
  case False
  show ?thesis
  proof (cases "isValid (currentText (getPart (timeParts sc) part) @ rawValue) part
                  (use12HourClock sc)")
    case True
    with isValid_number obtain n
      where "toNumber (currentText (getPart (timeParts sc) part) @ rawValue) = Some n"
      by blast
    with True False show ?thesis
      by (simp add: handleChange_def Let_def isNaN_def)
  next
    case invalid: False
    show ?thesis
    proof (cases "isValid rawValue part (use12HourClock sc)")
      case True
      with isValid_number obtain n where "toNumber rawValue = Some n" by blast
      with True invalid False show ?thesis
        by (simp add: handleChange_def Let_def isNaN_def)
    next
      case False
      with invalid \<open>currentText (getPart (timeParts sc) part) @ rawValue \<noteq> []\<close>
      show ?thesis
        by (simp add: handleChange_def Let_def isNaN_def)
    qed
  qed
qed

subsection \<open>The numbers the handlers store\<close>

text \<open>
  Decomposition yields a segment record that can be stored, and every segment record a
  handler passes to \<^verbatim>\<open>setTimeParts\<close> can be stored if the current one can.  On such
  a record an empty raw value always clears the segment.
\<close>

lemma editable_callback:
  "\<not> disabled sc \<Longrightarrow> \<not> readOnly sc \<Longrightarrow> useEditableCallback sc h a = h a"
  "disabled sc \<or> readOnly sc \<Longrightarrow> useEditableCallback sc h a = []"
  by (simp_all add: useEditableCallback_def createEditableCallback_def)

lemma storable_None: "storable g m None"
  by (simp add: storable_def currentText_def)

lemma getValueParts_storableParts: "storableParts m (getValueParts v m)"
  by (simp add: storableParts_def getValueParts_storable)

lemma notifyChange_SetTimeParts:
  "SetTimeParts p \<in> set (notifyChange sc upd) \<Longrightarrow> p = merge (timeParts sc) upd"
  by (auto simp: notifyChange_def Let_def split: if_splits option.splits)

lemma merge_partUpdate_storable:
  "storableParts m p \<Longrightarrow> storable g m v \<Longrightarrow> storableParts m (merge p (partUpdate g v))"
  by (cases g) (simp_all add: storableParts_def merge_def noUpdates_def)

lemma merge_meridiemUpdate_storable:
  "storableParts m p \<Longrightarrow> storableParts m (merge p (meridiemUpdate x))"
  by (simp add: storableParts_def merge_def noUpdates_def meridiemUpdate_def)

lemma handleChange_storable:
  assumes "storableParts (use12HourClock sc) (timeParts sc)"
    and "SetTimeParts p \<in> set (handleChange sc part rawValue)"
  shows "storableParts (use12HourClock sc) p"
proof -
  let ?str = "currentText (getPart (timeParts sc) part) @ rawValue"
  let ?m = "use12HourClock sc"
  from assms(2) obtain v where v: "SetTimeParts p \<in> set (notifyChange sc (partUpdate part v))"
    and cases: "v = None \<or> (isValid rawValue part ?m \<and> v = toNumber rawValue) \<or>
                (isValid ?str part ?m \<and> v = toNumber ?str)"
    unfolding handleChange_isNaN Let_def
    by (auto split: if_splits)
  have "storable part ?m v"
    using cases
  proof (elim disjE conjE)
    assume "v = None"
    then show ?thesis by (simp add: storable_None)
  next
    assume a: "isValid rawValue part ?m" "v = toNumber rawValue"
    with isValid_number obtain n where "toNumber rawValue = Some n" by blast
    with a valid_number_storable show ?thesis by simp
  next
    assume a: "isValid ?str part ?m" "v = toNumber ?str"
    with isValid_number obtain n where "toNumber ?str = Some n" by blast
    with a valid_number_storable show ?thesis by simp
  qed
  with assms(1) have "storableParts ?m (merge (timeParts sc) (partUpdate part v))"
    by (rule merge_partUpdate_storable)
  with notifyChange_SetTimeParts[OF v] show ?thesis by simp
qed

lemma increment_storable:
  assumes "storableParts (use12HourClock sc) (timeParts sc)"
    and "SetTimeParts p \<in> set (increment sc part inc)"
  shows "storableParts (use12HourClock sc) p"
proof (cases "disabled sc \<or> readOnly sc")
  case True
  with assms(2) show ?thesis by (simp add: increment_def editable_callback)
next
  case False
  show ?thesis
  proof (cases part)
    case Meridiem
    with False assms(2) have "p = merge (timeParts sc)
        (meridiemUpdate (if meridiem (timeParts sc) = AM then PM else AM))"
      by (auto simp: increment_def editable_callback dest: notifyChange_SetTimeParts)
    with assms(1) show ?thesis by (simp add: merge_meridiemUpdate_storable)
  next
    case (Seg g)
    let ?n = "(case getPart (timeParts sc) g of None \<Rightarrow> 0 | Some n \<Rightarrow> n) + inc"
    from Seg False assms(2) have v: "isValid (String ?n) g (use12HourClock sc)"
      and p: "p = merge (timeParts sc) (partUpdate g (Some ?n))"
      by (auto simp: increment_def editable_callback Let_def split: if_splits
          dest: notifyChange_SetTimeParts)
    from v have "storable g (use12HourClock sc) (Some ?n)"
      by (simp add: storable_def currentText_def)
    with assms(1) p show ?thesis by (simp add: merge_partUpdate_storable)
  qed
qed

lemma handleKeyDown_storable:
  assumes "storableParts (use12HourClock sc) (timeParts sc)"
    and "SetTimeParts p \<in> set (handleKeyDown sc part ev)"
  shows "storableParts (use12HourClock sc) p"
proof (cases "disabled sc \<or> readOnly sc")
  case True
  with assms(2) show ?thesis by (simp add: handleKeyDown_def editable_callback)
next
  case False
  with assms(2) have "SetTimeParts p \<in> set (increment sc part 1) \<or>
      SetTimeParts p \<in> set (increment sc part (- 1)) \<or>
      SetTimeParts p \<in> set (notifyChange sc (meridiemUpdate AM)) \<or>
      SetTimeParts p \<in> set (notifyChange sc (meridiemUpdate PM))"
    by (auto simp: handleKeyDown_def editable_callback Let_def focusNext_def split: if_splits)
  then show ?thesis
    using assms(1) increment_storable[OF assms(1)]
    by (auto dest!: notifyChange_SetTimeParts simp: merge_meridiemUpdate_storable)
qed

lemma handleClear_storable:
  assumes "SetTimeParts p \<in> set (handleClear sc)"
  shows "storableParts m p"
proof -
  from assms have "p = getValueParts Null False"
    by (cases "disabled sc \<or> readOnly sc")
       (auto simp: handleClear_def editable_callback split: if_splits)
  then show ?thesis
    by (simp add: storableParts_def storable_None getValueParts_def)
qed

lemma useTimePartState_storable:
  assumes "storableParts (st_use12HourClock st) (st_timeParts st)"
  shows "storableParts (st_use12HourClock (snd (useTimePartState (count, st) v use12)))
           (st_timeParts (snd (useTimePartState (count, st) v use12)))"
  using assms by (auto simp add: useTimePartState_def Let_def getValueParts_storableParts)

lemma handleChange_clear:
  assumes "storableParts (use12HourClock sc) (timeParts sc)"
  shows "handleChange sc part [] = Select # notifyChange sc (partUpdate part None)"
proof -
  from assms have "storable part (use12HourClock sc) (getPart (timeParts sc) part)"
    by (cases part) (simp_all add: storableParts_def)
  then show ?thesis
    unfolding handleChange_isNaN by (auto simp: storable_def Let_def)
qed

subsection \<open>The claim on keystroke accumulation\<close>



subsection \<open>Increment, clear and suppression\<close>

lemma getPart_merge_partUpdate: "getPart (merge p (partUpdate g v)) g = v"
  by (cases g) (simp_all add: merge_def noUpdates_def)

text \<open>
  C5.  When the segment's number (0 if absent) plus the increment fails the segment
  validator, \<^verbatim>\<open>increment\<close> has no effect at all.  Whatever the flags, it either has no
  effect or passes on exactly that sum, so a value never wraps to the other end of its
  range.  In particular the Up arrow on hours 23 in 24-hour mode changes neither the
  segment record nor the owner's value.
\<close>

theorem increment_boundary:
  "(\<not> isValid (String ((case getPart (timeParts sc) g of None \<Rightarrow> 0 | Some n \<Rightarrow> n) + inc)) g
        (use12HourClock sc) \<longrightarrow>
      increment sc (Seg g) inc = []) \<and>
   (increment sc (Seg g) inc = [] \<or>
    increment sc (Seg g) inc =
      notifyChange sc
        (partUpdate g (Some ((case getPart (timeParts sc) g of None \<Rightarrow> 0 | Some n \<Rightarrow> n) + inc)))
      @ [Select]) \<and>
   (hours (timeParts sc) = Some 23 \<and> \<not> use12HourClock sc \<and> key ev = ''ArrowUp'' \<longrightarrow>
      (\<forall>e \<in> set (handleKeyDown sc (Seg Hours) ev). \<not> mutates e) \<and>
      applyEffects st (handleKeyDown sc (Seg Hours) ev) = st)"
proof (intro conjI impI)
  assume "\<not> isValid (String ((case getPart (timeParts sc) g of None \<Rightarrow> 0 | Some n \<Rightarrow> n) + inc)) g
        (use12HourClock sc)"
  then show "increment sc (Seg g) inc = []"
    by (cases "disabled sc \<or> readOnly sc") (simp_all add: increment_def editable_callback Let_def)
next
  show "increment sc (Seg g) inc = [] \<or>
    increment sc (Seg g) inc =
      notifyChange sc
        (partUpdate g (Some ((case getPart (timeParts sc) g of None \<Rightarrow> 0 | Some n \<Rightarrow> n) + inc)))
      @ [Select]"
    by (cases "disabled sc \<or> readOnly sc") (simp_all add: increment_def editable_callback Let_def)
next
  assume a: "hours (timeParts sc) = Some 23 \<and> \<not> use12HourClock sc \<and> key ev = ''ArrowUp''"
  have v: "\<not> isValid ''24'' Hours False"
    by (simp add: isValid_def test_def)
  have inc: "increment sc (Seg Hours) 1 = []"
    using a v
    by (cases "disabled sc \<or> readOnly sc")
       (simp_all add: increment_def editable_callback Let_def String_small)
  have k: "handleKeyDown sc (Seg Hours) ev = [] \<or> handleKeyDown sc (Seg Hours) ev = [PreventDefault]"
    using a inc
    by (cases "disabled sc \<or> readOnly sc")
       (simp_all add: handleKeyDown_def editable_callback Let_def)
  then show "\<forall>e \<in> set (handleKeyDown sc (Seg Hours) ev). \<not> mutates e"
    by auto
  from k show "applyEffects st (handleKeyDown sc (Seg Hours) ev) = st"
    by (auto simp: applyEffects_def)
qed

text \<open>An editable control at 23:00 in 24-hour mode: the increment and the Up arrow.\<close>

theorem increment_boundary_witness:
  "increment
     \<lparr> value = DateObj 3 82800000, use12HourClock = False, precision = PrecMinutes,
       disabled = False, readOnly = False, datePart = Undefined,
       timeParts = \<lparr> hours = Some 23, minutes = Some 0, seconds = Some 0,
                     milliseconds = Some 0, meridiem = AM \<rparr>, today = 0 \<rparr> (Seg Hours) 1 = [] \<and>
   applyEffects (initialState (DateObj 3 82800000) False)
     (handleKeyDown
        \<lparr> value = DateObj 3 82800000, use12HourClock = False, precision = PrecMinutes,
          disabled = False, readOnly = False, datePart = Undefined,
          timeParts = \<lparr> hours = Some 23, minutes = Some 0, seconds = Some 0,
                        milliseconds = Some 0, meridiem = AM \<rparr>, today = 0 \<rparr> (Seg Hours)
        \<lparr> key = ''ArrowUp'', selectionStart = 0, selectionEnd = 2, valueLength = 2 \<rparr>) =
     initialState (DateObj 3 82800000) False"
proof -
  let ?sc = "\<lparr> value = DateObj 3 82800000, use12HourClock = False, precision = PrecMinutes,
       disabled = False, readOnly = False, datePart = Undefined,
       timeParts = \<lparr> hours = Some 23, minutes = Some 0, seconds = Some 0,
                     milliseconds = Some 0, meridiem = AM \<rparr>, today = 0 \<rparr>"
  let ?ev = "\<lparr> key = ''ArrowUp'', selectionStart = 0, selectionEnd = 2, valueLength = 2 \<rparr>"
  let ?st = "initialState (DateObj 3 82800000) False"
  have v: "\<not> isValid ''24'' Hours False"
    by (simp add: isValid_def test_def)
  have 1: "increment ?sc (Seg Hours) 1 = []"
    using increment_boundary [of ?sc Hours 1 ?ev ?st, THEN conjunct1] v
    by (simp add: String_small)
  have 2: "applyEffects ?st (handleKeyDown ?sc (Seg Hours) ?ev) = ?st"
    using increment_boundary [of ?sc Hours 1 ?ev ?st, THEN conjunct2, THEN conjunct2]
    by simp
  from 1 2 show ?thesis by simp
qed

text \<open>
  C10.  For a numeric segment whose value is absent, in either mode: on an editable
  control an increment by 1 passes the value 1 for that segment to \<^verbatim>\<open>notifyChange\<close>,
  whose merged record has 1 in that segment and, the segment being a rendered one, is not
  empty; a decrement by 1 has no effect, since \<^verbatim>\<open>"-1"\<close> fails every validator.
\<close>

theorem increment_absent:
  assumes "getPart (timeParts sc) g = None"
  shows "(\<not> disabled sc \<and> \<not> readOnly sc \<longrightarrow>
            increment sc (Seg g) 1 = notifyChange sc (partUpdate g (Some 1)) @ [Select] \<and>
            getPart (merge (timeParts sc) (partUpdate g (Some 1))) g = Some 1 \<and>
            (g \<in> set (renderedSegments (precision sc)) \<longrightarrow>
               \<not> isEmptyValue (merge (timeParts sc) (partUpdate g (Some 1))) (precision sc))) \<and>
         increment sc (Seg g) (- 1) = []"
proof (intro conjI impI)
  assume e: "\<not> disabled sc \<and> \<not> readOnly sc"
  then show "increment sc (Seg g) 1 = notifyChange sc (partUpdate g (Some 1)) @ [Select]"
    using assms by (simp add: increment_def editable_callback String_small isValid_one)
  show "getPart (merge (timeParts sc) (partUpdate g (Some 1))) g = Some 1"
    by (rule getPart_merge_partUpdate)
next
  assume "g \<in> set (renderedSegments (precision sc))"
  then show "\<not> isEmptyValue (merge (timeParts sc) (partUpdate g (Some 1))) (precision sc)"
    by (rule rendered_not_empty) (simp add: getPart_merge_partUpdate)
next
  show "increment sc (Seg g) (- 1) = []"
    using assms
    by (cases "disabled sc \<or> readOnly sc")
       (simp_all add: increment_def editable_callback String_small isValid_minus_one)
qed

text \<open>Absent seconds beside hours 9, with no value yet: up gives seconds 1, down nothing.\<close>

theorem increment_absent_witness:
  "increment
     \<lparr> value = Undefined, use12HourClock = True, precision = PrecSeconds,
       disabled = False, readOnly = False, datePart = Undefined,
       timeParts = \<lparr> hours = Some 9, minutes = None, seconds = None,
                     milliseconds = None, meridiem = AM \<rparr>, today = 0 \<rparr> (Seg Seconds) 1 =
     [SetTimeParts \<lparr> hours = Some 9, minutes = None, seconds = Some 1,
                     milliseconds = None, meridiem = AM \<rparr>, Select] \<and>
   increment
     \<lparr> value = Undefined, use12HourClock = True, precision = PrecSeconds,
       disabled = False, readOnly = False, datePart = Undefined,
       timeParts = \<lparr> hours = Some 9, minutes = None, seconds = None,
                     milliseconds = None, meridiem = AM \<rparr>, today = 0 \<rparr> (Seg Seconds) (- 1) = []"
  using increment_absent [of
     "\<lparr> value = Undefined, use12HourClock = True, precision = PrecSeconds,
       disabled = False, readOnly = False, datePart = Undefined,
       timeParts = \<lparr> hours = Some 9, minutes = None, seconds = None,
                     milliseconds = None, meridiem = AM \<rparr>, today = 0 \<rparr>" Seconds]
  by (simp add: notifyChange_def isEmptyValue_def isPartialValue_def merge_def noUpdates_def
      renderedSegments_def)

text \<open>
  C8.  On a control that is neither disabled nor read-only the clear action first moves
  the focus to the hours segment; then, if a value exists, it calls \<^verbatim>\<open>onChange\<close> with
  an absent value, and otherwise it calls no \<^verbatim>\<open>onChange\<close> and sets the segment
  record to the record with every numeric field absent and meridiem AM.
\<close>

theorem handleClear_effects:
  assumes "\<not> disabled sc" and "\<not> readOnly sc"
  shows "(truthy (value sc) \<longrightarrow> handleClear sc = [FocusHours, OnChange None None]) \<and>
         (\<not> truthy (value sc) \<longrightarrow>
            handleClear sc =
              [FocusHours,
               SetTimeParts \<lparr> hours = None, minutes = None, seconds = None,
                              milliseconds = None, meridiem = AM \<rparr>])"
  using assms by (simp add: handleClear_def editable_callback getValueParts_def)

theorem handleClear_effects_witness:
  "handleClear
     \<lparr> value = DateObj 3 50700000, use12HourClock = False, precision = PrecMinutes,
       disabled = False, readOnly = False, datePart = Undefined,
       timeParts = getValueParts (DateObj 3 50700000) False, today = 0 \<rparr> =
     [FocusHours, OnChange None None] \<and>
   handleClear
     \<lparr> value = Null, use12HourClock = False, precision = PrecMinutes,
       disabled = False, readOnly = False, datePart = Undefined,
       timeParts = \<lparr> hours = Some 9, minutes = None, seconds = None,
                     milliseconds = None, meridiem = PM \<rparr>, today = 0 \<rparr> =
     [FocusHours,
      SetTimeParts \<lparr> hours = None, minutes = None, seconds = None,
                     milliseconds = None, meridiem = AM \<rparr>]"
  using handleClear_effects [of
     "\<lparr> value = DateObj 3 50700000, use12HourClock = False, precision = PrecMinutes,
       disabled = False, readOnly = False, datePart = Undefined,
       timeParts = getValueParts (DateObj 3 50700000) False, today = 0 \<rparr>"]
    handleClear_effects [of
     "\<lparr> value = Null, use12HourClock = False, precision = PrecMinutes,
       disabled = False, readOnly = False, datePart = Undefined,
       timeParts = \<lparr> hours = Some 9, minutes = None, seconds = None,
                     milliseconds = None, meridiem = PM \<rparr>, today = 0 \<rparr>"]
  by simp



subsection \<open>Reconciliation of the edit session\<close>

lemma strict_neq_same: "\<not> strict_neq v v"
  by (cases v) simp_all

text \<open>
  C7, as the claim states it, fails: once the counter \<^verbatim>\<open>count\<close> has reached 99, an
  evaluation with a value that differs from the snapshot leaves the session as it was,
  and the buffered segments are not the decomposition of the new value.
\<close>

theorem useTimePartState_counterexample:
  "strict_neq (st_value (initialState Null False)) (DateObj 1 50700000) \<and>
   st_timeParts (snd (useTimePartState (99, initialState Null False) (DateObj 1 50700000) False))
     \<noteq> getValueParts (DateObj 1 50700000) False"
  by (simp add: useTimePartState_def initialState_def Let_def getValueParts_def)

text \<open>
  C7, amended.  On every evaluation in which the supplied value (compared by identity)
  or the 12-hour mode differs from the session's snapshot, and the guard on
  resynchronisation permits it (the counter of such evaluations, this one included, is
  below 100), the session is reset: snapshot and segment record are rederived from the
  new value and mode, whatever was buffered, so that the buffered segments equal the
  decomposition of the current value.  A further evaluation with the same value and mode
  changes nothing.
\<close>

theorem useTimePartState_reset:
  assumes "strict_neq (st_value st) v \<or> st_use12HourClock st \<noteq> use12"
    and "count + 1 < 100"
  shows "useTimePartState (count, st) v use12 = (count + 1, initialState v use12) \<and>
         st_timeParts (snd (useTimePartState (count, st) v use12)) = getValueParts v use12 \<and>
         useTimePartState (useTimePartState (count, st) v use12) v use12 =
           useTimePartState (count, st) v use12"
proof -
  have 1: "useTimePartState (count, st) v use12 = (count + 1, initialState v use12)"
    using assms by (auto simp add: useTimePartState_def initialState_def Let_def)
  have 2: "useTimePartState (count + 1, initialState v use12) v use12 =
           (count + 1, initialState v use12)"
    by (simp add: useTimePartState_def initialState_def Let_def strict_neq_same)
  show ?thesis
    unfolding 1 2 by (simp add: initialState_def)
qed

text \<open>A partial edit (hours 9) is discarded when the owner supplies 14:05.\<close>

theorem useTimePartState_reset_witness:
  "useTimePartState
     (0, \<lparr> st_value = Null, st_use12HourClock = False,
           st_timeParts = \<lparr> hours = Some 9, minutes = None, seconds = None,
                            milliseconds = None, meridiem = AM \<rparr> \<rparr>)
     (DateObj 1 50700000) False =
   (1, \<lparr> st_value = DateObj 1 50700000, st_use12HourClock = False,
         st_timeParts = \<lparr> hours = Some 14, minutes = Some 5, seconds = Some 0,
                          milliseconds = Some 0, meridiem = AM \<rparr> \<rparr>)"
  using useTimePartState_reset [of
     "\<lparr> st_value = Null, st_use12HourClock = False,
           st_timeParts = \<lparr> hours = Some 9, minutes = None, seconds = None,
                            milliseconds = None, meridiem = AM \<rparr> \<rparr>"
     "DateObj 1 50700000" False 0]
  by (simp add: initialState_def getValueParts_def HourFromTime_def MinFromTime_def
      SecFromTime_def msFromTime_def msPerHour_def msPerMinute_def msPerSecond_def)

end
